theory Spec2Isabelle
  imports Main
begin

section \<open>Python values, YAML nodes and the file system\<close>

text \<open>
  The module \<^verbatim>\<open>core/config.py\<close> is a thin layer over three libraries: the YAML library
  (scanner, parser, composer, emitter and the base constructors and representers),
  numpy (arrays and the compressed \<^verbatim>\<open>.npz\<close> archive) and \<^verbatim>\<open>os.path\<close>. The model keeps the
  module's own functions as they are written and fixes the following view of the libraries:
  \<^item> the text of a YAML stream is identified with the node graph the composer builds from
    it (\<open>Stream None\<close> is a stream without a document, \<open>Unparsable\<close> a text the library
    rejects);
  \<^item> an \<^verbatim>\<open>.npz\<close> archive is identified with the named arrays it holds, and the base64 text of
    a binary scalar with the bytes it encodes;
  \<^item> what the libraries compute beyond that (the text of a float and the reading of
    scalars that are no canonical integer or boolean, mappings with merge keys, tags the
    module does not register, Python's \<^verbatim>\<open>eval\<close>, whether a write succeeds, the implicit
    resolvers of the base loader) is a field of the record \<open>lib\<close>.
\<close>

type_synonym path = string

datatype exn =
    FileNotFoundError string
  | SyntaxError
  | NameError string
  | TypeError
  | ValueError
  | KeyError string
  | AttributeError
  | OSError
  | YAMLError
  | ConstructorError
  | RepresenterError

text \<open>
  A float is kept as a pair of integers, a mantissa and a decimal exponent. The module does
  no arithmetic on floats; NaN and the infinities are left out.
\<close>

datatype pyfloat = PyFloat int int

datatype num = NInt int | NFloat pyfloat

text \<open>A numpy array: the name of its element type, its shape, its elements in row-major order.\<close>

datatype ndarray = Ndarray string "nat list" "num list"

datatype bytes = Npz "(string \<times> ndarray) list" | Raw "nat list"

datatype pyval =
    PNone
  | PBool bool
  | PInt int
  | PFloat pyfloat
  | PStr string
  | PBytes bytes
  | PList "pyval list"
  | POrderedDict "(pyval \<times> pyval) list"
  | PSet "pyval list"
  | PFrozenset "pyval list"
  | PNdarray ndarray
  | PNumpyInt string int
  | PNumpyFloat string pyfloat
  | PCallable string

datatype content = Text string | Base64 bytes

datatype node =
    ScalarNode string content
  | SequenceNode string "node list"
  | MappingNode string "(node \<times> node) list"

datatype ytext = Stream "node option" | Unparsable

datatype fcontent = YamlText ytext | Binary bytes

datatype fsobj = Directory | File fcontent

type_synonym fs = "path \<Rightarrow> fsobj option"

record lib =
  float_text :: "pyfloat \<Rightarrow> string"
  base_scalar :: "string \<Rightarrow> string \<Rightarrow> exn + pyval"
  special_mapping :: "node \<Rightarrow> exn + pyval"
  construct_other :: "node \<Rightarrow> exn + pyval"
  b64text :: "bytes \<Rightarrow> string"
  py_eval :: "string \<Rightarrow> (string \<times> pyval) list \<Rightarrow> exn + pyval"
  savez_ok :: "fs \<Rightarrow> path \<Rightarrow> bool"
  implicit_tag :: "string \<Rightarrow> string"

abbreviation tag_map :: string where "tag_map \<equiv> ''tag:yaml.org,2002:map''"
abbreviation tag_seq :: string where "tag_seq \<equiv> ''tag:yaml.org,2002:seq''"
abbreviation tag_str :: string where "tag_str \<equiv> ''tag:yaml.org,2002:str''"
abbreviation tag_null :: string where "tag_null \<equiv> ''tag:yaml.org,2002:null''"
abbreviation tag_bool :: string where "tag_bool \<equiv> ''tag:yaml.org,2002:bool''"
abbreviation tag_int :: string where "tag_int \<equiv> ''tag:yaml.org,2002:int''"
abbreviation tag_float :: string where "tag_float \<equiv> ''tag:yaml.org,2002:float''"
abbreviation tag_binary :: string where "tag_binary \<equiv> ''tag:yaml.org,2002:binary''"
abbreviation tag_set :: string where "tag_set \<equiv> ''tag:yaml.org,2002:set''"
abbreviation tag_merge :: string where "tag_merge \<equiv> ''tag:yaml.org,2002:merge''"
abbreviation tag_value :: string where "tag_value \<equiv> ''tag:yaml.org,2002:value''"

fun node_tag :: "node \<Rightarrow> string" where
  "node_tag (ScalarNode t c) = t"
| "node_tag (SequenceNode t ns) = t"
| "node_tag (MappingNode t ps) = t"


subsection \<open>Decimal integers\<close>

definition digit_chars :: string where
  "digit_chars = ''0123456789''"

fun dec :: "nat \<Rightarrow> string" where
  "dec n = (if n < 10 then [digit_chars ! n] else dec (n div 10) @ [digit_chars ! (n mod 10)])"

declare dec.simps [simp del]

text \<open>Python's \<^verbatim>\<open>str\<close> of an integer.\<close>

definition str_int :: "int \<Rightarrow> string" where
  "str_int i = (if i < 0 then CHR ''-'' # dec (nat (- i)) else dec (nat i))"

text \<open>The value of a digit is its position among the ten digits.\<close>

definition digit_val :: "char \<Rightarrow> nat" where
  "digit_val c = length (takeWhile (\<lambda>d. d \<noteq> c) digit_chars)"

definition read_nat :: "string \<Rightarrow> nat" where
  "read_nat s = foldl (\<lambda>acc c. 10 * acc + digit_val c) 0 s"

definition read_int :: "string \<Rightarrow> int" where
  "read_int s = (case s of [] \<Rightarrow> 0
     | c # cs \<Rightarrow> if c = CHR ''-'' then - int (read_nat cs) else int (read_nat s))"

definition is_digit :: "char \<Rightarrow> bool" where
  "is_digit c = (c \<in> set digit_chars)"

text \<open>
  A text is a canonical decimal when it consists of digits, after a minus sign or without
  one, and is what \<^verbatim>\<open>str\<close> prints for the number it reads as.
\<close>

definition canonical_int :: "string \<Rightarrow> int option" where
  "canonical_int t =
     (if list_all is_digit (if take 1 t = ''-'' then drop 1 t else t)
      then (let i = read_int t in if str_int i = t then Some i else None)
      else None)"

subsection \<open>The ordered dictionary\<close>

text \<open>
  \<^verbatim>\<open>OrderedDict(pairs)\<close> stores the pairs one after the other: a new key is appended, a key
  already present keeps its position and gets the new value. A key that cannot be hashed
  raises TypeError.
\<close>

fun hashable :: "pyval \<Rightarrow> bool" where
  "hashable (PList xs) = False"
| "hashable (POrderedDict d) = False"
| "hashable (PSet xs) = False"
| "hashable (PNdarray a) = False"
| "hashable v = True"

definition od_setitem :: "('k \<times> 'v) list \<Rightarrow> 'k \<Rightarrow> 'v \<Rightarrow> ('k \<times> 'v) list" where
  "od_setitem d k v =
     (if k \<in> fst ` set d then map (\<lambda>(k', v'). if k' = k then (k', v) else (k', v')) d
      else d @ [(k, v)])"

definition od_of_pairs :: "('k \<times> 'v) list \<Rightarrow> ('k \<times> 'v) list" where
  "od_of_pairs ps = foldl (\<lambda>d (k, v). od_setitem d k v) [] ps"

definition OrderedDict :: "(pyval \<times> pyval) list \<Rightarrow> exn + pyval" where
  "OrderedDict ps =
     (if list_all (\<lambda>(k, v). hashable k) ps then Inr (POrderedDict (od_of_pairs ps))
      else Inl TypeError)"


section \<open>The loader\<close>

definition startswith :: "string \<Rightarrow> string \<Rightarrow> bool" where
  "startswith s p = (take (length p) s = p)"

text \<open>The library's \<^verbatim>\<open>construct_yaml_str\<close>, \<^verbatim>\<open>construct_yaml_binary\<close> and \<^verbatim>\<open>numpy.load\<close>.\<close>

fun construct_yaml_str :: "lib \<Rightarrow> node \<Rightarrow> exn + string" where
  "construct_yaml_str L (ScalarNode t (Text s)) = Inr s"
| "construct_yaml_str L (ScalarNode t (Base64 b)) = Inr (b64text L b)"
| "construct_yaml_str L n = Inl ConstructorError"

fun construct_yaml_binary :: "node \<Rightarrow> exn + bytes" where
  "construct_yaml_binary (ScalarNode t (Base64 b)) = Inr b"
| "construct_yaml_binary n = Inl ConstructorError"

fun numpy_load_bytes :: "bytes \<Rightarrow> exn + (string \<times> ndarray) list" where
  "numpy_load_bytes (Npz d) = Inr d"
| "numpy_load_bytes (Raw bs) = Inl ValueError"

fun numpy_load :: "fs \<Rightarrow> path \<Rightarrow> exn + (string \<times> ndarray) list" where
  "numpy_load F p =
     (case F p of
        None \<Rightarrow> Inl (FileNotFoundError p)
      | Some Directory \<Rightarrow> Inl OSError
      | Some (File (YamlText t)) \<Rightarrow> Inl ValueError
      | Some (File (Binary b)) \<Rightarrow> numpy_load_bytes b)"

definition getitem :: "(string \<times> ndarray) list \<Rightarrow> string \<Rightarrow> exn + pyval" where
  "getitem arrays k = (case map_of arrays k of None \<Rightarrow> Inl (KeyError k) | Some a \<Rightarrow> Inr (PNdarray a))"

text \<open>\<^verbatim>\<open>construct_ndarray\<close>: the inline archive of an \<^verbatim>\<open>!ndarray\<close> node.\<close>

definition construct_ndarray :: "node \<Rightarrow> exn + pyval" where
  "construct_ndarray n =
     (case construct_yaml_binary n of Inl e \<Rightarrow> Inl e
      | Inr v \<Rightarrow> (case numpy_load_bytes v of Inl e \<Rightarrow> Inl e | Inr arrays \<Rightarrow> getitem arrays ''array''))"

text \<open>\<^verbatim>\<open>construct_external_ndarray\<close>: the archive file an \<^verbatim>\<open>!extndarray\<close> node names.\<close>

definition construct_external_ndarray :: "lib \<Rightarrow> fs \<Rightarrow> node \<Rightarrow> exn + pyval" where
  "construct_external_ndarray L F n =
     (case construct_yaml_str L n of Inl e \<Rightarrow> Inl e
      | Inr filename \<Rightarrow>
          (case numpy_load F filename of Inl e \<Rightarrow> Inl e | Inr arrays \<Rightarrow> getitem arrays ''array''))"

text \<open>
  \<^verbatim>\<open>construct_str\<close>: the dictionary \<^verbatim>\<open>local\<close> is built in the order the source fills it and is
  passed to \<^verbatim>\<open>eval\<close> as its globals; only SyntaxError is caught.
\<close>

definition dtype_names :: "string list" where
  "dtype_names = [''int8'', ''uint8'', ''int16'', ''uint16'', ''float16'', ''int32'', ''uint32'',
                  ''float32'', ''int64'', ''uint64'', ''float64'']"

definition local :: "(string \<times> pyval) list" where
  "local = (''array'', PCallable ''numpy.array'') #
           map (\<lambda>dtype. (dtype, PCallable (''numpy.'' @ dtype))) dtype_names"

definition construct_str :: "lib \<Rightarrow> node \<Rightarrow> exn + pyval" where
  "construct_str L n =
     (case construct_yaml_str L n of Inl e \<Rightarrow> Inl e
      | Inr v \<Rightarrow>
          if startswith v ''array('' then
            (case py_eval L v local of
               Inl e \<Rightarrow> if e = SyntaxError then Inr (PStr v) else Inl e
             | Inr r \<Rightarrow> Inr r)
          else Inr (PStr v))"

text \<open>The base constructors of the library for the scalar tags.\<close>

fun scalar_text :: "node \<Rightarrow> exn + string" where
  "scalar_text (ScalarNode t (Text s)) = Inr s"
| "scalar_text n = Inl ConstructorError"

definition construct_yaml_bool :: "lib \<Rightarrow> node \<Rightarrow> exn + pyval" where
  "construct_yaml_bool L n =
     (case scalar_text n of Inl e \<Rightarrow> Inl e
      | Inr s \<Rightarrow> if s = ''true'' then Inr (PBool True) else if s = ''false'' then Inr (PBool False)
                else base_scalar L tag_bool s)"

definition construct_yaml_int :: "lib \<Rightarrow> node \<Rightarrow> exn + pyval" where
  "construct_yaml_int L n =
     (case scalar_text n of Inl e \<Rightarrow> Inl e
      | Inr s \<Rightarrow> (case canonical_int s of Some i \<Rightarrow> Inr (PInt i) | None \<Rightarrow> base_scalar L tag_int s))"

definition construct_yaml_float :: "lib \<Rightarrow> node \<Rightarrow> exn + pyval" where
  "construct_yaml_float L n =
     (case scalar_text n of Inl e \<Rightarrow> Inl e | Inr s \<Rightarrow> base_scalar L tag_float s)"

definition has_special_key :: "(node \<times> node) list \<Rightarrow> bool" where
  "has_special_key ps = list_ex (\<lambda>(k, v). node_tag k = tag_merge \<or> node_tag k = tag_value) ps"

text \<open>
  The constructor dispatch of \<^verbatim>\<open>OrderedLoader\<close>: the five constructors \<^verbatim>\<open>ordered_load\<close>
  registers come first (they replace the base entries for the mapping and the string tag),
  then the base loader's own entries. \<^verbatim>\<open>construct_mapping\<close> and \<^verbatim>\<open>construct_frozenset\<close>
  are the source's; \<^verbatim>\<open>construct_pairs\<close>, \<^verbatim>\<open>construct_sequence\<close> and \<^verbatim>\<open>construct_yaml_set\<close> are
  the library's. A mapping with a merge key or a default-value key is left to the library
  (\<open>special_mapping\<close>), as is a set node with a repeated key.
\<close>

function construct_object :: "lib \<Rightarrow> fs \<Rightarrow> node \<Rightarrow> exn + pyval"
  and construct_mapping :: "lib \<Rightarrow> fs \<Rightarrow> node \<Rightarrow> exn + pyval"
  and construct_frozenset :: "lib \<Rightarrow> fs \<Rightarrow> node \<Rightarrow> exn + pyval"
  and construct_yaml_set :: "lib \<Rightarrow> fs \<Rightarrow> node \<Rightarrow> exn + pyval list"
  and construct_pairs :: "lib \<Rightarrow> fs \<Rightarrow> (node \<times> node) list \<Rightarrow> exn + (pyval \<times> pyval) list"
  and construct_sequence :: "lib \<Rightarrow> fs \<Rightarrow> node list \<Rightarrow> exn + pyval list"
where
  "construct_object L F n =
     (let tag = node_tag n in
      if tag = tag_map then construct_mapping L F n
      else if tag = ''!ndarray'' then construct_ndarray n
      else if tag = ''!extndarray'' then construct_external_ndarray L F n
      else if tag = ''!frozenset'' then construct_frozenset L F n
      else if tag = tag_str then construct_str L n
      else if tag = tag_null then
        (case n of ScalarNode t c \<Rightarrow> Inr PNone | _ \<Rightarrow> Inl ConstructorError)
      else if tag = tag_bool then construct_yaml_bool L n
      else if tag = tag_int then construct_yaml_int L n
      else if tag = tag_float then construct_yaml_float L n
      else if tag = tag_binary then map_sum id PBytes (construct_yaml_binary n)
      else if tag = tag_seq then
        (case n of SequenceNode t ns \<Rightarrow> map_sum id PList (construct_sequence L F ns)
         | _ \<Rightarrow> Inl ConstructorError)
      else if tag = tag_set then
        (case construct_yaml_set L F n of Inl e \<Rightarrow> Inl e
         | Inr [] \<Rightarrow> Inl ConstructorError
         | Inr (d # ds) \<Rightarrow> Inr d)
      else construct_other L n)"
| "construct_mapping L F (MappingNode t ps) =
     (if has_special_key ps then special_mapping L (MappingNode t ps)
      else (case construct_pairs L F ps of Inl e \<Rightarrow> Inl e | Inr kvs \<Rightarrow> OrderedDict kvs))"
| "construct_mapping L F (ScalarNode t c) = Inl ConstructorError"
| "construct_mapping L F (SequenceNode t ns) = Inl ConstructorError"
| "construct_frozenset L F n =
     (case construct_yaml_set L F n of Inl e \<Rightarrow> Inl e
      | Inr data \<Rightarrow>
          (case data of [] \<Rightarrow> Inr (PFrozenset [])
           | d # ds \<Rightarrow> (case d of PSet xs \<Rightarrow> Inr (PFrozenset xs) | _ \<Rightarrow> Inl TypeError)))"
| "construct_yaml_set L F (MappingNode t ps) =
     (if has_special_key ps then map_sum id (\<lambda>v. [v]) (special_mapping L (MappingNode t ps))
      else (case construct_pairs L F ps of Inl e \<Rightarrow> Inl e
        | Inr kvs \<Rightarrow>
            if \<not> list_all (\<lambda>(k, v). hashable k) kvs then Inl ConstructorError
            else if \<not> distinct (map fst kvs) then
              map_sum id (\<lambda>v. [v]) (construct_other L (MappingNode t ps))
            else Inr [PSet (map fst kvs)]))"
| "construct_yaml_set L F (ScalarNode t c) = Inl ConstructorError"
| "construct_yaml_set L F (SequenceNode t ns) = Inl ConstructorError"
| "construct_pairs L F [] = Inr []"
| "construct_pairs L F ((k, v) # ps) =
     (case construct_object L F k of Inl e \<Rightarrow> Inl e
      | Inr key \<Rightarrow>
          (case construct_object L F v of Inl e \<Rightarrow> Inl e
           | Inr val \<Rightarrow>
               (case construct_pairs L F ps of Inl e \<Rightarrow> Inl e | Inr kvs \<Rightarrow> Inr ((key, val) # kvs))))"
| "construct_sequence L F [] = Inr []"
| "construct_sequence L F (n # ns) =
     (case construct_object L F n of Inl e \<Rightarrow> Inl e
      | Inr v \<Rightarrow> (case construct_sequence L F ns of Inl e \<Rightarrow> Inl e | Inr vs \<Rightarrow> Inr (v # vs)))"
  by pat_completeness auto

termination
  by (relation "inv_image (less_than <*lex*> less_than)
     (\<lambda>x. case x of
         Inl (Inl (L, F, n)) \<Rightarrow> (size n, 3::nat)
       | Inl (Inr (Inl (L, F, n))) \<Rightarrow> (size n, 1)
       | Inl (Inr (Inr (L, F, n))) \<Rightarrow> (size n, 2)
       | Inr (Inl (L, F, n)) \<Rightarrow> (size n, 1)
       | Inr (Inr (Inl (L, F, ps))) \<Rightarrow> (size_list (size_prod size size) ps, 0)
       | Inr (Inr (Inr (L, F, ns))) \<Rightarrow> (size_list size ns, 0))") auto

declare construct_object.simps [simp del]

text \<open>
  \<^verbatim>\<open>yaml.load\<close> returns None for a stream without a document and the constructed object of
  its single document otherwise; \<^verbatim>\<open>ordered_load\<close> replaces None by an empty OrderedDict.
\<close>

fun yaml_load :: "lib \<Rightarrow> fs \<Rightarrow> ytext \<Rightarrow> exn + pyval" where
  "yaml_load L F (Stream None) = Inr PNone"
| "yaml_load L F (Stream (Some n)) = construct_object L F n"
| "yaml_load L F Unparsable = Inl YAMLError"

definition ordered_load :: "lib \<Rightarrow> fs \<Rightarrow> ytext \<Rightarrow> exn + pyval" where
  "ordered_load L F stream =
     (case yaml_load L F stream of Inl e \<Rightarrow> Inl e
      | Inr config \<Rightarrow> Inr (if config = PNone then POrderedDict [] else config))"

text \<open>\<^verbatim>\<open>load\<close>: the file facade of the loader.\<close>

definition isfile :: "fs \<Rightarrow> path \<Rightarrow> bool" where
  "isfile F p = (case F p of Some (File c) \<Rightarrow> True | _ \<Rightarrow> False)"

definition open_read :: "fs \<Rightarrow> path \<Rightarrow> ytext" where
  "open_read F p = (case F p of Some (File (YamlText t)) \<Rightarrow> t | _ \<Rightarrow> Unparsable)"

definition not_found_message :: "path \<Rightarrow> string" where
  "not_found_message file_path =
     ''Could not load config file '' @ [CHR 0x22] @ file_path @ [CHR 0x22] @ ''. File not found''"

definition load :: "lib \<Rightarrow> fs \<Rightarrow> path \<Rightarrow> bool \<Rightarrow> exn + pyval" where
  "load L F file_path ignore_missing =
     (if isfile F file_path then ordered_load L F (open_read F file_path)
      else if ignore_missing then Inr (POrderedDict [])
      else Inl (FileNotFoundError (not_found_message file_path)))"

section \<open>The dumper\<close>

subsection \<open>Path names and the counter format\<close>

text \<open>
  \<^verbatim>\<open>os.path.basename\<close>, \<^verbatim>\<open>dirname\<close>, \<^verbatim>\<open>splitext\<close> and \<^verbatim>\<open>join\<close> for POSIX paths, and the
  format \<^verbatim>\<open>{:06}\<close> of a counter: its decimal digits, padded with zeros to six places.
\<close>

definition basename :: "path \<Rightarrow> string" where
  "basename p = rev (takeWhile (\<lambda>c. c \<noteq> CHR ''/'') (rev p))"

definition dirname :: "path \<Rightarrow> string" where
  "dirname p =
     (let head = take (length p - length (basename p)) p in
      if head \<noteq> [] \<and> list_ex (\<lambda>c. c \<noteq> CHR ''/'') head
      then rev (dropWhile (\<lambda>c. c = CHR ''/'') (rev head)) else head)"

definition splitext :: "path \<Rightarrow> string \<times> string" where
  "splitext p =
     (let name = basename p;
          dir = take (length p - length name) p;
          ext = rev (takeWhile (\<lambda>c. c \<noteq> CHR ''.'') (rev name));
          stem = take (length name - length ext - 1) name
      in if CHR ''.'' \<in> set name \<and> list_ex (\<lambda>c. c \<noteq> CHR ''.'') stem
         then (dir @ stem, CHR ''.'' # ext) else (p, []))"

definition join :: "path \<Rightarrow> path \<Rightarrow> path" where
  "join a b =
     (if startswith b ''/'' then b
      else if a = [] \<or> last a = CHR ''/'' then a @ b
      else a @ ''/'' @ b)"

definition format06 :: "nat \<Rightarrow> string" where
  "format06 k = replicate (6 - length (dec k)) (CHR ''0'') @ dec k"

subsection \<open>Representers\<close>

datatype stream = NoStream | StringIO | FileStream path

text \<open>
  The attribute \<^verbatim>\<open>stream.name\<close>: a file opened by path has one, \<^verbatim>\<open>None\<close> and an in-memory
  buffer raise AttributeError.
\<close>

fun stream_name :: "stream \<Rightarrow> exn + path" where
  "stream_name (FileStream p) = Inr p"
| "stream_name s = Inl AttributeError"

record dstate =
  external_ndarray_counter :: nat
  files :: fs

text \<open>
  \<^verbatim>\<open>numpy.savez_compressed(path, array=data)\<close>: whether the write goes through is the
  operating system's decision (\<open>savez_ok\<close>); a write that fails leaves the files as they were.
\<close>

definition savez_compressed :: "lib \<Rightarrow> fs \<Rightarrow> path \<Rightarrow> (string \<times> ndarray) list \<Rightarrow> exn + fs" where
  "savez_compressed L F p arrays =
     (if savez_ok L F p then Inr (F(p \<mapsto> File (Binary (Npz arrays)))) else Inl OSError)"

definition newpath :: "path \<Rightarrow> nat \<Rightarrow> path" where
  "newpath name k =
     join (dirname name) (fst (splitext (basename name))) @ ''-'' @ format06 k @ ''.npz''"

text \<open>
  \<^verbatim>\<open>represent_ndarray\<close>: the body of the \<^verbatim>\<open>try\<close> is \<open>externalize\<close>; the bare \<^verbatim>\<open>except\<close> turns
  every exception of it into the inline node.
\<close>

definition externalize :: "lib \<Rightarrow> stream \<Rightarrow> dstate \<Rightarrow> ndarray \<Rightarrow> exn + (dstate \<times> node)" where
  "externalize L stream st data =
     (case stream_name stream of Inl e \<Rightarrow> Inl e
      | Inr name \<Rightarrow>
          (let p = newpath name (external_ndarray_counter st) in
           case savez_compressed L (files st) p [(''array'', data)] of Inl e \<Rightarrow> Inl e
           | Inr F' \<Rightarrow>
               Inr (st\<lparr>files := F', external_ndarray_counter := external_ndarray_counter st + 1\<rparr>,
                    ScalarNode ''!extndarray'' (Text p))))"

definition represent_ndarray :: "lib \<Rightarrow> stream \<Rightarrow> dstate \<Rightarrow> ndarray \<Rightarrow> dstate \<times> node" where
  "represent_ndarray L stream st data =
     (case externalize L stream st data of
        Inr r \<Rightarrow> r
      | Inl e \<Rightarrow> (st, ScalarNode ''!ndarray'' (Base64 (Npz [(''array'', data)]))))"

definition int_dtypes :: "string list" where
  "int_dtypes = [''uint8'', ''uint16'', ''uint32'', ''uint64'', ''int8'', ''int16'', ''int32'', ''int64'']"

definition float_dtypes :: "string list" where
  "float_dtypes = [''float16'', ''float32'', ''float64'']"

text \<open>\<^verbatim>\<open>represent_int\<close> and \<^verbatim>\<open>represent_float\<close>, for the numpy scalar types they are registered for.\<close>

definition represent_int :: "int \<Rightarrow> node" where
  "represent_int i = ScalarNode tag_int (Text (str_int i))"

definition represent_float :: "lib \<Rightarrow> pyfloat \<Rightarrow> node" where
  "represent_float L f = ScalarNode tag_float (Text (float_text L f))"

definition null_node :: node where
  "null_node = ScalarNode tag_null (Text ''null'')"

text \<open>
  The representer dispatch of \<^verbatim>\<open>OrderedDumper\<close> over the safe dumper:
  \<^verbatim>\<open>represent_ordereddict\<close> and \<^verbatim>\<open>represent_frozenset\<close> are the source's,
  \<^verbatim>\<open>represent_mapping\<close>, \<^verbatim>\<open>represent_sequence\<close> and \<^verbatim>\<open>represent_set\<close> the library's. The
  dumper's state (the counter and the files written so far) is threaded through in the
  order the nodes are built: a key before its value, items from first to last. The list
  of a set is the order in which the library emits its elements.
\<close>

function represent_data :: "lib \<Rightarrow> stream \<Rightarrow> dstate \<Rightarrow> pyval \<Rightarrow> exn + (dstate \<times> node)"
  and represent_mapping :: "lib \<Rightarrow> stream \<Rightarrow> dstate \<Rightarrow> (pyval \<times> pyval) list \<Rightarrow> exn + (dstate \<times> (node \<times> node) list)"
  and represent_sequence :: "lib \<Rightarrow> stream \<Rightarrow> dstate \<Rightarrow> pyval list \<Rightarrow> exn + (dstate \<times> node list)"
  and represent_set :: "lib \<Rightarrow> stream \<Rightarrow> dstate \<Rightarrow> pyval list \<Rightarrow> exn + (dstate \<times> (node \<times> node) list)"
where
  "represent_data L s st PNone = Inr (st, null_node)"
| "represent_data L s st (PBool b) = Inr (st, ScalarNode tag_bool (Text (if b then ''true'' else ''false'')))"
| "represent_data L s st (PInt i) = Inr (st, represent_int i)"
| "represent_data L s st (PFloat f) = Inr (st, represent_float L f)"
| "represent_data L s st (PStr v) = Inr (st, ScalarNode tag_str (Text v))"
| "represent_data L s st (PBytes b) = Inr (st, ScalarNode tag_binary (Base64 b))"
| "represent_data L s st (PList xs) =
     (case represent_sequence L s st xs of Inl e \<Rightarrow> Inl e
      | Inr (st', ns) \<Rightarrow> Inr (st', SequenceNode tag_seq ns))"
| "represent_data L s st (POrderedDict d) =
     (case represent_mapping L s st d of Inl e \<Rightarrow> Inl e
      | Inr (st', ps) \<Rightarrow> Inr (st', MappingNode tag_map ps))"
| "represent_data L s st (PSet xs) =
     (case represent_set L s st xs of Inl e \<Rightarrow> Inl e
      | Inr (st', ps) \<Rightarrow> Inr (st', MappingNode tag_set ps))"
| "represent_data L s st (PFrozenset xs) =
     (case represent_set L s st xs of Inl e \<Rightarrow> Inl e
      | Inr (st', ps) \<Rightarrow> Inr (st', MappingNode ''!frozenset'' ps))"
| "represent_data L s st (PNdarray a) = Inr (represent_ndarray L s st a)"
| "represent_data L s st (PNumpyInt t i) =
     (if t \<in> set int_dtypes then Inr (st, represent_int i) else Inl RepresenterError)"
| "represent_data L s st (PNumpyFloat t f) =
     (if t \<in> set float_dtypes then Inr (st, represent_float L f) else Inl RepresenterError)"
| "represent_data L s st (PCallable c) = Inl RepresenterError"
| "represent_mapping L s st [] = Inr (st, [])"
| "represent_mapping L s st ((k, v) # d) =
     (case represent_data L s st k of Inl e \<Rightarrow> Inl e
      | Inr (st1, node_key) \<Rightarrow>
          (case represent_data L s st1 v of Inl e \<Rightarrow> Inl e
           | Inr (st2, node_value) \<Rightarrow>
               (case represent_mapping L s st2 d of Inl e \<Rightarrow> Inl e
                | Inr (st3, ps) \<Rightarrow> Inr (st3, (node_key, node_value) # ps))))"
| "represent_sequence L s st [] = Inr (st, [])"
| "represent_sequence L s st (x # xs) =
     (case represent_data L s st x of Inl e \<Rightarrow> Inl e
      | Inr (st1, n) \<Rightarrow>
          (case represent_sequence L s st1 xs of Inl e \<Rightarrow> Inl e
           | Inr (st2, ns) \<Rightarrow> Inr (st2, n # ns)))"
| "represent_set L s st [] = Inr (st, [])"
| "represent_set L s st (x # xs) =
     (case represent_data L s st x of Inl e \<Rightarrow> Inl e
      | Inr (st1, node_key) \<Rightarrow>
          (case represent_set L s st1 xs of Inl e \<Rightarrow> Inl e
           | Inr (st2, ps) \<Rightarrow> Inr (st2, (node_key, null_node) # ps)))"
  by pat_completeness auto
termination
  by (relation "measure
     (\<lambda>x. case x of
         Inl (Inl (L, s, st, v)) \<Rightarrow> size v
       | Inl (Inr (L, s, st, d)) \<Rightarrow> size_list (size_prod size size) d
       | Inr (Inl (L, s, st, xs)) \<Rightarrow> size_list size xs
       | Inr (Inr (L, s, st, xs)) \<Rightarrow> size_list size xs)") auto

text \<open>
  \<^verbatim>\<open>ordered_dump\<close>: the class \<^verbatim>\<open>OrderedDumper\<close> is created by the call, so the counter starts
  at 0. The result is the files after the dump and the text that went to the stream.
\<close>

definition ordered_dump :: "lib \<Rightarrow> stream \<Rightarrow> fs \<Rightarrow> pyval \<Rightarrow> exn + (fs \<times> ytext)" where
  "ordered_dump L stream F data =
     (case represent_data L stream \<lparr>external_ndarray_counter = 0, files = F\<rparr> data of
        Inl e \<Rightarrow> Inl e
      | Inr (st, n) \<Rightarrow> Inr (files st, Stream (Some n)))"

section \<open>Documents and what a load of their dump gives\<close>

text \<open>The values the dumper has a representer for.\<close>

fun supported :: "pyval \<Rightarrow> bool" where
  "supported (PList xs) = list_all supported xs"
| "supported (POrderedDict d) = list_all (\<lambda>p. supported (fst p) \<and> supported (snd p)) d"
| "supported (PSet xs) = list_all supported xs"
| "supported (PFrozenset xs) = list_all supported xs"
| "supported (PNumpyInt t i) = (t \<in> set int_dtypes)"
| "supported (PNumpyFloat t f) = (t \<in> set float_dtypes)"
| "supported (PCallable c) = False"
| "supported v = True"


text \<open>
  The text of a dump keeps no widths: a numpy scalar is written as a plain integer or
  float. \<open>drop_widths\<close> is the document with every numpy scalar replaced by the Python
  number of the same value.
\<close>

fun drop_widths :: "pyval \<Rightarrow> pyval" where
  "drop_widths (PNumpyInt t i) = PInt i"
| "drop_widths (PNumpyFloat t f) = PFloat f"
| "drop_widths (PList xs) = PList (map drop_widths xs)"
| "drop_widths (POrderedDict d) = POrderedDict (map (\<lambda>p. (drop_widths (fst p), drop_widths (snd p))) d)"
| "drop_widths (PSet xs) = PSet (map drop_widths xs)"
| "drop_widths (PFrozenset xs) = PFrozenset (map drop_widths xs)"
| "drop_widths v = v"

text \<open>
  The documents the round trip is about: values of the supported kinds, as Python can
  build them (the keys of a dictionary and the elements of a set are hashable and
  pairwise different), with floats that the library reads back from the text it writes
  for them, and without a string that starts with the array prefix.
\<close>

fun well_formed :: "lib \<Rightarrow> pyval \<Rightarrow> bool" where
  "well_formed L (PStr v) = (\<not> startswith v ''array('')"
| "well_formed L (PFloat f) = (base_scalar L tag_float (float_text L f) = Inr (PFloat f))"
| "well_formed L (PNumpyInt t i) = (t \<in> set int_dtypes)"
| "well_formed L (PNumpyFloat t f) =
     (t \<in> set float_dtypes \<and> base_scalar L tag_float (float_text L f) = Inr (PFloat f))"
| "well_formed L (PList xs) = list_all (well_formed L) xs"
| "well_formed L (POrderedDict d) =
     (list_all (\<lambda>p. well_formed L (fst p) \<and> well_formed L (snd p)) d \<and>
      list_all (\<lambda>p. hashable (fst p)) d \<and> distinct (map (\<lambda>p. drop_widths (fst p)) d))"
| "well_formed L (PSet xs) =
     (list_all (well_formed L) xs \<and> list_all hashable xs \<and> distinct (map drop_widths xs))"
| "well_formed L (PFrozenset xs) =
     (list_all (well_formed L) xs \<and> list_all hashable xs \<and> distinct (map drop_widths xs))"
| "well_formed L (PCallable c) = False"
| "well_formed L v = True"

text \<open>The file names in the \<^verbatim>\<open>!extndarray\<close> nodes of a node graph, in document order.\<close>

fun ext_paths :: "node \<Rightarrow> path list" where
  "ext_paths (ScalarNode t c) =
     (if t = ''!extndarray'' then (case c of Text p \<Rightarrow> [p] | Base64 b \<Rightarrow> []) else [])"
| "ext_paths (SequenceNode t ns) = concat (map ext_paths ns)"
| "ext_paths (MappingNode t ps) = concat (map (\<lambda>p. ext_paths (fst p) @ ext_paths (snd p)) ps)"

text \<open>The names the dumper gives to the files of the counter values from \<open>c\<close> up to \<open>c'\<close>.\<close>

definition ext_names :: "stream \<Rightarrow> nat \<Rightarrow> nat \<Rightarrow> path list" where
  "ext_names s c c' = (case s of FileStream p \<Rightarrow> map (newpath p) [c..<c'] | _ \<Rightarrow> [])"

text \<open>
  A stretch of a dump from state \<open>st\<close> to state \<open>st'\<close> that built nodes with the file names
  \<open>names\<close>: the counter went up by their number, they are the names of the counter values
  passed, and no other file was touched.
\<close>

definition frame :: "stream \<Rightarrow> dstate \<Rightarrow> dstate \<Rightarrow> path list \<Rightarrow> bool" where
  "frame s st st' names =
     (external_ndarray_counter st \<le> external_ndarray_counter st' \<and>
      names = ext_names s (external_ndarray_counter st) (external_ndarray_counter st') \<and>
      (\<forall>q. q \<notin> set names \<longrightarrow> files st' q = files st q))"

definition agrees :: "stream \<Rightarrow> dstate \<Rightarrow> dstate \<Rightarrow> fs \<Rightarrow> bool" where
  "agrees s st st' G =
     (\<forall>q \<in> set (ext_names s (external_ndarray_counter st) (external_ndarray_counter st')).
        G q = files st' q)"

section \<open>A fragment of Python's expressions\<close>

text \<open>
  The reference instance of \<^verbatim>\<open>eval\<close> reads and evaluates a small fragment of Python: names,
  decimal integers, single-quoted strings, list displays and calls with positional
  arguments. As Python does, it looks a name up in the globals it is given and then, as
  these hold no \<^verbatim>\<open>__builtins__\<close> entry of their own, in the builtins module (of which the
  function \<^verbatim>\<open>len\<close> is kept). A text outside the fragment is reported as a syntax error.
\<close>

datatype token = TName string | TInt nat | TStr string | TSym char

datatype expr = Name string | Num nat | Str string | ListE "expr list" | Call expr "expr list"

definition is_name_char :: "char \<Rightarrow> bool" where
  "is_name_char c = (c \<in> set ''abcdefghijklmnopqrstuvwxyzABCDEFGHIJKLMNOPQRSTUVWXYZ_0123456789'')"

fun tokenize :: "nat \<Rightarrow> string \<Rightarrow> token list option" where
  "tokenize fuel [] = Some []"
| "tokenize 0 (c # cs) = None"
| "tokenize (Suc fuel) (c # cs) =
     (if c = CHR '' '' then tokenize fuel cs
      else if is_digit c then
        map_option (\<lambda>ts. TInt (read_nat (takeWhile is_digit (c # cs))) # ts)
          (tokenize fuel (dropWhile is_digit cs))
      else if is_name_char c then
        map_option (\<lambda>ts. TName (takeWhile is_name_char (c # cs)) # ts)
          (tokenize fuel (dropWhile is_name_char cs))
      else if c = CHR 0x27 then
        (case dropWhile (\<lambda>d. d \<noteq> CHR 0x27) cs of
           [] \<Rightarrow> None
         | q # rest \<Rightarrow>
             map_option (\<lambda>ts. TStr (takeWhile (\<lambda>d. d \<noteq> CHR 0x27) cs) # ts) (tokenize fuel rest))
      else map_option (\<lambda>ts. TSym c # ts) (tokenize fuel cs))"

fun parse_expr :: "nat \<Rightarrow> token list \<Rightarrow> (expr \<times> token list) option"
  and parse_trailers :: "nat \<Rightarrow> expr \<Rightarrow> token list \<Rightarrow> (expr \<times> token list) option"
  and parse_items :: "nat \<Rightarrow> char \<Rightarrow> token list \<Rightarrow> (expr list \<times> token list) option"
where
  "parse_expr 0 ts = None"
| "parse_expr (Suc fuel) [] = None"
| "parse_expr (Suc fuel) (TName n # ts) = parse_trailers fuel (Name n) ts"
| "parse_expr (Suc fuel) (TInt i # ts) = parse_trailers fuel (Num i) ts"
| "parse_expr (Suc fuel) (TStr s # ts) = parse_trailers fuel (Str s) ts"
| "parse_expr (Suc fuel) (TSym c # ts) =
     (if c = CHR ''['' then
        (case parse_items fuel (CHR '']'') ts of None \<Rightarrow> None
         | Some (es, rest) \<Rightarrow> parse_trailers fuel (ListE es) rest)
      else None)"
| "parse_trailers 0 e ts = None"
| "parse_trailers (Suc fuel) e (TSym c # ts) =
     (if c = CHR ''('' then
        (case parse_items fuel (CHR '')'') ts of None \<Rightarrow> None
         | Some (es, rest) \<Rightarrow> parse_trailers fuel (Call e es) rest)
      else Some (e, TSym c # ts))"
| "parse_trailers (Suc fuel) e ts = Some (e, ts)"
| "parse_items 0 close ts = None"
| "parse_items (Suc fuel) close [] = None"
| "parse_items (Suc fuel) close (t # ts) =
     (if t = TSym close then Some ([], ts)
      else (case parse_expr fuel (t # ts) of None \<Rightarrow> None
        | Some (e, rest) \<Rightarrow>
            (case rest of
               [] \<Rightarrow> None
             | r # rest' \<Rightarrow>
                 if r = TSym close then Some ([e], rest')
                 else if r = TSym (CHR '','') then
                   map_option (\<lambda>(es, rest''). (e # es, rest'')) (parse_items fuel close rest')
                 else None)))"

definition builtins :: "(string \<times> pyval) list" where
  "builtins = [(''len'', PCallable ''builtins.len'')]"

fun int_items :: "pyval list \<Rightarrow> num list option" where
  "int_items [] = Some []"
| "int_items (PInt i # vs) = map_option (\<lambda>ns. NInt i # ns) (int_items vs)"
| "int_items (v # vs) = None"

text \<open>The calls of the fragment: \<^verbatim>\<open>numpy.array\<close> of an integer or of a list of integers, and \<^verbatim>\<open>len\<close>.\<close>

fun call :: "pyval \<Rightarrow> pyval list \<Rightarrow> exn + pyval" where
  "call (PCallable f) [PInt i] =
     (if f = ''numpy.array'' then Inr (PNdarray (Ndarray ''int64'' [] [NInt i])) else Inl TypeError)"
| "call (PCallable f) [PList vs] =
     (if f = ''numpy.array'' then
        (case int_items vs of None \<Rightarrow> Inl ValueError
         | Some ns \<Rightarrow> Inr (PNdarray (Ndarray ''int64'' [length ns] ns)))
      else if f = ''builtins.len'' then Inr (PInt (int (length vs)))
      else Inl TypeError)"
| "call f args = Inl TypeError"

fun eval_expr :: "(string \<times> pyval) list \<Rightarrow> expr \<Rightarrow> exn + pyval"
  and eval_list :: "(string \<times> pyval) list \<Rightarrow> expr list \<Rightarrow> exn + pyval list"
where
  "eval_expr g (Name n) =
     (case map_of g n of Some v \<Rightarrow> Inr v
      | None \<Rightarrow>
          (case map_of g ''__builtins__'' of
             Some b \<Rightarrow> Inl (NameError n)
           | None \<Rightarrow> (case map_of builtins n of Some v \<Rightarrow> Inr v | None \<Rightarrow> Inl (NameError n))))"
| "eval_expr g (Num i) = Inr (PInt (int i))"
| "eval_expr g (Str s) = Inr (PStr s)"
| "eval_expr g (ListE es) = map_sum id PList (eval_list g es)"
| "eval_expr g (Call f es) =
     (case eval_expr g f of Inl e \<Rightarrow> Inl e
      | Inr fv \<Rightarrow> (case eval_list g es of Inl e \<Rightarrow> Inl e | Inr vs \<Rightarrow> call fv vs))"
| "eval_list g [] = Inr []"
| "eval_list g (e # es) =
     (case eval_expr g e of Inl x \<Rightarrow> Inl x
      | Inr v \<Rightarrow> (case eval_list g es of Inl x \<Rightarrow> Inl x | Inr vs \<Rightarrow> Inr (v # vs)))"

definition eval_fragment :: "string \<Rightarrow> (string \<times> pyval) list \<Rightarrow> exn + pyval" where
  "eval_fragment s g =
     (case tokenize (length s) s of None \<Rightarrow> Inl SyntaxError
      | Some ts \<Rightarrow>
          (case parse_expr (4 * length ts + 4) ts of
             Some (e, []) \<Rightarrow> eval_expr g e
           | _ \<Rightarrow> Inl SyntaxError))"

section \<open>A reference instance of the libraries\<close>

text \<open>
  The reference instance stands for the libraries where a concrete one is needed. It knows
  the two booleans, canonical decimal integers, null and floats in scientific notation,
  writes the float \<open>PyFloat m e\<close> as \<^verbatim>\<open>me+e\<close>, evaluates with the fragment above, and its
  writes succeed.
\<close>

definition strip_sign :: "string \<Rightarrow> bool \<times> string" where
  "strip_sign s =
     (case s of [] \<Rightarrow> (False, [])
      | c # cs \<Rightarrow> if c = CHR ''-'' then (True, cs) else if c = CHR ''+'' then (False, cs)
                 else (False, s))"

definition float_text0 :: "pyfloat \<Rightarrow> string" where
  "float_text0 f =
     (case f of PyFloat m e \<Rightarrow>
        str_int m @ ''e'' @ (if e < 0 then ''-'' else ''+'') @ dec (nat \<bar>e\<bar>))"

text \<open>
  Modelled from the spec: the float pattern of the YAML library's scalar resolution, which
  is not among the sources. The spec (4.2) gives the pattern of a number in scientific
  notation that is resolved as a float: an optional sign, an integer part, an optional
  fractional part, the exponent marker, an optional sign and the exponent digits; neither
  a decimal point nor a sign of the exponent is required. \<open>float_parse0\<close> reads a text of
  that pattern and gives the float it denotes.
\<close>

definition float_parse0 :: "string \<Rightarrow> pyfloat option" where
  "float_parse0 s =
     (let (neg, body) = strip_sign s;
          ip = takeWhile is_digit body;
          r1 = dropWhile is_digit body;
          fp = (if take 1 r1 = ''.'' then takeWhile is_digit (drop 1 r1) else []);
          r2 = (if take 1 r1 = ''.'' then dropWhile is_digit (drop 1 r1) else r1);
          (eneg, ed) = strip_sign (drop 1 r2)
      in if ip \<noteq> [] \<and> (take 1 r2 = ''e'' \<or> take 1 r2 = ''E'') \<and> ed \<noteq> [] \<and> list_all is_digit ed
         then Some (PyFloat ((if neg then - 1 else 1) * int (read_nat (ip @ fp)))
                      ((if eneg then - int (read_nat ed) else int (read_nat ed)) - int (length fp)))
         else None)"

definition base_scalar0 :: "string \<Rightarrow> string \<Rightarrow> exn + pyval" where
  "base_scalar0 tag s =
     (if tag = tag_float then
        (case float_parse0 s of Some f \<Rightarrow> Inr (PFloat f) | None \<Rightarrow> Inl ValueError)
      else Inl ValueError)"

text \<open>
  Modelled from the spec: the implicit resolvers of the YAML library, which are not among
  the sources. A text of the float pattern above is tagged as a float (spec 4.2); the
  booleans, integers and null are those of the base grammar, everything else is a string.
\<close>

definition implicit_tag0 :: "string \<Rightarrow> string" where
  "implicit_tag0 s =
     (if s = ''true'' \<or> s = ''false'' then tag_bool
      else if float_parse0 s \<noteq> None then tag_float
      else if canonical_int s \<noteq> None then tag_int
      else if s = ''null'' \<or> s = ''~'' \<or> s = [] then tag_null
      else tag_str)"

definition lib0 :: lib where
  "lib0 = \<lparr> float_text = float_text0,
            base_scalar = base_scalar0,
            special_mapping = (\<lambda>n. Inl ConstructorError),
            construct_other = (\<lambda>n. Inl ConstructorError),
            b64text = (\<lambda>b. []),
            py_eval = eval_fragment,
            savez_ok = (\<lambda>F p. True),
            implicit_tag = implicit_tag0 \<rparr>"


definition array123 :: ndarray where
  "array123 = Ndarray ''int64'' [3] [NInt 1, NInt 2, NInt 3]"

definition text_node :: "string \<Rightarrow> node" where
  "text_node s = ScalarNode tag_str (Text s)"

definition int_node :: "string \<Rightarrow> node" where
  "int_node s = ScalarNode tag_int (Text s)"

definition fs0 :: fs where
  "fs0 = [''app.cfg'' \<mapsto> File (YamlText (Stream (Some (MappingNode tag_map
            [(text_node ''a'', int_node ''1'')]))))]"

section \<open>Properties of the ordered dictionary\<close>










section \<open>The file facade of the loader\<close>

text \<open>
  Claim C4. For a path that names no existing file, \<^verbatim>\<open>load\<close> with \<^verbatim>\<open>ignore_missing\<close> set
  returns an empty ordered dictionary, and without it (the default) raises
  FileNotFoundError with a message that contains the path. For a path that names an
  existing file neither branch is taken, whatever the flag: the result is what
  \<^verbatim>\<open>ordered_load\<close> makes of the file's contents.
\<close>

theorem load_missing_and_present:
  "(\<not> isfile F p \<longrightarrow>
      load L F p True = Inr (POrderedDict []) \<and>
      load L F p False = Inl (FileNotFoundError (not_found_message p)) \<and>
      (\<exists>a b. not_found_message p = a @ p @ b)) \<and>
   (isfile F p \<longrightarrow> load L F p flag = ordered_load L F (open_read F p))"
proof -
  have "not_found_message p =
          (''Could not load config file '' @ [CHR 0x22]) @ p @ ([CHR 0x22] @ ''. File not found'')"
    by (simp add: not_found_message_def)
  then have "\<exists>a b. not_found_message p = a @ p @ b" by blast
  then show ?thesis by (simp add: load_def)
qed

lemma construct_int_node_1: "construct_object lib0 F (int_node ''1'') = Inr (PInt 1)"
  by (simp add: construct_object.simps int_node_def construct_yaml_int_def canonical_int_def
      is_digit_def read_int_def read_nat_def digit_val_def str_int_def dec.simps digit_chars_def)

lemma construct_text_node:
  "\<not> startswith s ''array('' \<Longrightarrow> construct_object L F (ScalarNode tag_str (Text s)) = Inr (PStr s)"
  by (simp add: construct_object.simps construct_str_def)

theorem load_missing_and_present_witness:
  "load lib0 fs0 ''none.cfg'' True = Inr (POrderedDict []) \<and>
   load lib0 fs0 ''none.cfg'' False = Inl (FileNotFoundError
      (''Could not load config file '' @ [CHR 0x22] @ ''none.cfg'' @ [CHR 0x22] @ ''. File not found'')) \<and>
   load lib0 fs0 ''app.cfg'' False = Inr (POrderedDict [(PStr ''a'', PInt 1)])"
proof -
  have missing: "\<not> isfile fs0 ''none.cfg''" by (simp add: isfile_def fs0_def)
  have present: "isfile fs0 ''app.cfg''" by (simp add: isfile_def fs0_def)
  have a: "construct_object lib0 fs0 (text_node ''a'') = Inr (PStr ''a'')"
    by (simp add: text_node_def construct_text_node startswith_def)
  have sp: "\<not> has_special_key [(text_node ''a'', int_node ''1'')]"
    by (simp add: has_special_key_def text_node_def)
  have n: "construct_object lib0 fs0 (MappingNode tag_map [(text_node ''a'', int_node ''1'')])
             = Inr (POrderedDict [(PStr ''a'', PInt 1)])"
    by (simp add: construct_object.simps [of _ _ "MappingNode t ps" for t ps] sp a
        construct_int_node_1 OrderedDict_def od_of_pairs_def od_setitem_def)
  have o: "open_read fs0 ''app.cfg'' = Stream (Some (MappingNode tag_map [(text_node ''a'', int_node ''1'')]))"
    by (simp add: open_read_def fs0_def)
  have "ordered_load lib0 fs0 (open_read fs0 ''app.cfg'') = Inr (POrderedDict [(PStr ''a'', PInt 1)])"
    by (simp add: ordered_load_def o n)
  with missing present load_missing_and_present [of fs0 "''none.cfg''" lib0 False]
    load_missing_and_present [of fs0 "''app.cfg''" lib0 False]
  show ?thesis by (simp add: not_found_message_def)
qed

section \<open>The empty stream\<close>

text \<open>
  Claim C8. Loading a stream that holds no document returns an empty ordered dictionary:
  no error is raised, and the result is not None.
\<close>

theorem ordered_load_empty_stream:
  "ordered_load L F (Stream None) = Inr (POrderedDict []) \<and>
   ordered_load L F (Stream None) \<noteq> Inr PNone \<and>
   (\<forall>e. ordered_load L F (Stream None) \<noteq> Inl e)"
  by (simp add: ordered_load_def)

section \<open>Repeated keys of a mapping node\<close>





section \<open>The empty immutable set\<close>

text \<open>
  Claim C9. An empty frozenset is dumped as an empty mapping node with the tag
  \<^verbatim>\<open>!frozenset\<close>, whatever the stream and the state of the dumper, and that node is loaded
  as an empty frozenset: not as None and not as an empty sequence.
\<close>

theorem empty_frozenset_round_trip:
  "represent_data L s st (PFrozenset []) = Inr (st, MappingNode ''!frozenset'' []) \<and>
   construct_object L F (MappingNode ''!frozenset'' []) = Inr (PFrozenset []) \<and>
   construct_object L F (MappingNode ''!frozenset'' []) \<noteq> Inr PNone \<and>
   construct_object L F (MappingNode ''!frozenset'' []) \<noteq> Inr (PList [])"
  by (simp add: construct_object.simps has_special_key_def)

section \<open>Arrays that cannot be written to a file of their own\<close>

lemma represent_ndarray_total:
  "\<exists>st' n. represent_data L s st (PNdarray a) = Inr (st', n)"
  by (cases "represent_ndarray L s st a") simp

lemma represent_supported:
  "supported v \<Longrightarrow> \<exists>st' n. represent_data L s st v = Inr (st', n)"
  "list_all (\<lambda>p. supported (fst p) \<and> supported (snd p)) d \<Longrightarrow> \<exists>st' ps. represent_mapping L s st d = Inr (st', ps)"
  "list_all supported xs \<Longrightarrow> \<exists>st' ns. represent_sequence L s st xs = Inr (st', ns)"
  "list_all supported xs \<Longrightarrow> \<exists>st' ps. represent_set L s st xs = Inr (st', ps)"
proof (induction L s st v and L s st d and L s st xs and L s st xs
    rule: represent_data_represent_mapping_represent_sequence_represent_set.induct)
  case (11 L s st a)
  show ?case by (rule represent_ndarray_total)
next
  case (16 L s st k v d)
  from "16.prems" have sk: "supported k" and sv: "supported v"
    and sd: "list_all (\<lambda>p. supported (fst p) \<and> supported (snd p)) d" by simp_all
  from "16.IH"(1) [OF sk] obtain st1 nk where 1: "represent_data L s st k = Inr (st1, nk)" by blast
  from "16.IH"(2) [OF 1 refl sv] obtain st2 nv where 2: "represent_data L s st1 v = Inr (st2, nv)" by blast
  from "16.IH"(3) [OF 1 refl 2 refl sd] obtain st3 ps where "represent_mapping L s st2 d = Inr (st3, ps)" by blast
  with 1 2 show ?case by simp
next
  case (18 L s st x xs)
  from "18.prems" have sx: "supported x" and sxs: "list_all supported xs" by simp_all
  from "18.IH"(1) [OF sx] obtain st1 n where 1: "represent_data L s st x = Inr (st1, n)" by blast
  from "18.IH"(2) [OF 1 refl sxs] obtain st2 ns where "represent_sequence L s st1 xs = Inr (st2, ns)" by blast
  with 1 show ?case by simp
next
  case (20 L s st x xs)
  from "20.prems" have sx: "supported x" and sxs: "list_all supported xs" by simp_all
  from "20.IH"(1) [OF sx] obtain st1 n where 1: "represent_data L s st x = Inr (st1, n)" by blast
  from "20.IH"(2) [OF 1 refl sxs] obtain st2 ps where "represent_set L s st1 xs = Inr (st2, ps)" by blast
  with 1 show ?case by simp
qed (auto split: sum.splits)



section \<open>Strings that look like an array\<close>

lemma construct_str_array_prefix:
  "startswith v ''array('' \<Longrightarrow>
   construct_object L F (ScalarNode tag_str (Text v)) =
     (case py_eval L v local of
        Inl e \<Rightarrow> if e = SyntaxError then Inr (PStr v) else Inl e
      | Inr r \<Rightarrow> Inr r)"
  by (simp add: construct_object.simps construct_str_def)

lemma eval_fragment_array123:
  "eval_fragment ''array([1, 2, 3])'' local = Inr (PNdarray array123)"
  by code_simp

lemma eval_fragment_unclosed:
  "eval_fragment ''array([1, 2'' local = Inl SyntaxError"
  by code_simp

lemma eval_fragment_unknown_name:
  "eval_fragment ''array(foo)'' local = Inl (NameError ''foo'')"
  by code_simp

lemma eval_fragment_len:
  "eval_fragment ''array([len([7, 8])])'' local = Inr (PNdarray (Ndarray ''int64'' [1] [NInt 2]))"
  by code_simp

lemma py_eval_lib0: "py_eval lib0 = eval_fragment"
  by (simp add: lib0_def)

text \<open>
  Claim C7. The two branches the claim names are there: a text with the array prefix that
  evaluates is loaded as the array, and one that is no expression is kept as the string.
  But a text whose evaluation fails with another exception than SyntaxError (here the
  unknown name \<^verbatim>\<open>foo\<close>) is not kept as a string: the exception leaves \<^verbatim>\<open>construct_str\<close> and
  the load of the whole document fails with it.
\<close>

theorem construct_str_failure_escapes:
  "construct_object lib0 fs0 (text_node ''array([1, 2, 3])'') = Inr (PNdarray array123) \<and>
   construct_object lib0 fs0 (text_node ''array([1, 2'') = Inr (PStr ''array([1, 2'') \<and>
   construct_object lib0 fs0 (text_node ''array(foo)'') = Inl (NameError ''foo'') \<and>
   ordered_load lib0 fs0 (Stream (Some (text_node ''array(foo)''))) = Inl (NameError ''foo'')"
  by (simp add: text_node_def construct_str_array_prefix startswith_def py_eval_lib0
      eval_fragment_array123 eval_fragment_unclosed eval_fragment_unknown_name ordered_load_def)

text \<open>
  Claim C2. The dictionary \<^verbatim>\<open>local\<close> that \<^verbatim>\<open>construct_str\<close> hands to \<^verbatim>\<open>eval\<close> holds the array
  constructor and the eleven type names and nothing else; in particular it has no
  \<^verbatim>\<open>__builtins__\<close> entry, so Python adds its builtins to the evaluation. A text with the
  array prefix therefore can call a function that is not on the list: \<^verbatim>\<open>len\<close> here.
\<close>

theorem construct_str_evaluates_builtins:
  "map fst local = ''array'' # dtype_names \<and>
   map_of local ''__builtins__'' = None \<and>
   map_of local ''len'' = None \<and>
   construct_object lib0 fs0 (text_node ''array([len([7, 8])])'') =
     Inr (PNdarray (Ndarray ''int64'' [1] [NInt 2]))"
proof -
  have "map fst local = ''array'' # dtype_names"
    by (simp add: local_def comp_def)
  moreover have "map_of local ''__builtins__'' = None" "map_of local ''len'' = None"
    by (simp_all add: local_def dtype_names_def)
  moreover have "construct_object lib0 fs0 (text_node ''array([len([7, 8])])'') =
     Inr (PNdarray (Ndarray ''int64'' [1] [NInt 2]))"
    by (simp add: text_node_def construct_str_array_prefix startswith_def py_eval_lib0 eval_fragment_len)
  ultimately show ?thesis by blast
qed

section \<open>Scalars in scientific notation\<close>







section \<open>Decimal texts can be read back\<close>

lemma digit_val_digit: "d < 10 \<Longrightarrow> digit_val (digit_chars ! d) = d"
proof -
  assume "d < 10"
  then consider "d = 0" | "d = 1" | "d = 2" | "d = 3" | "d = 4" | "d = 5" | "d = 6" | "d = 7"
    | "d = 8" | "d = 9" by atomize_elim arith
  then show ?thesis
    by cases (simp_all add: digit_val_def digit_chars_def)
qed

lemma read_nat_snoc: "read_nat (xs @ [c]) = 10 * read_nat xs + digit_val c"
  by (simp add: read_nat_def)

lemma read_nat_dec: "read_nat (dec n) = n"
proof (induction n rule: dec.induct)
  case (1 n)
  show ?case
  proof (cases "n < 10")
    case True
    then show ?thesis
      by (subst dec.simps) (simp add: read_nat_def digit_val_digit)
  next
    case False
    then have "read_nat (dec (n div 10)) = n div 10" using 1 by simp
    with False show ?thesis
      by (subst dec.simps) (simp add: read_nat_snoc digit_val_digit)
  qed
qed

lemma dec_digits: "dec n \<noteq> [] \<and> list_all is_digit (dec n)"
proof (induction n rule: dec.induct)
  case (1 n)
  have "length digit_chars = 10" by (simp add: digit_chars_def)
  then have d: "\<And>k. k < 10 \<Longrightarrow> is_digit (digit_chars ! k)"
    by (simp add: is_digit_def)
  show ?case
  proof (cases "n < 10")
    case True
    then show ?thesis by (subst (1 2) dec.simps) (simp add: d)
  next
    case False
    with 1 show ?thesis by (subst (1 2) dec.simps) (simp add: d)
  qed
qed

lemma digit_val_zero: "digit_val (CHR ''0'') = 0"
  by (simp add: digit_val_def digit_chars_def)

lemma read_nat_replicate_zero: "read_nat (replicate k (CHR ''0'')) = 0"
proof (induction k)
  case 0
  then show ?case by (simp add: read_nat_def)
next
  case (Suc k)
  have "replicate (Suc k) (CHR ''0'') = replicate k (CHR ''0'') @ [CHR ''0'']"
    by (simp add: replicate_append_same)
  then show ?case using Suc by (simp only: read_nat_snoc digit_val_zero)
qed

lemma read_nat_zeros: "read_nat (replicate k (CHR ''0'') @ s) = read_nat s"
proof -
  have "read_nat (replicate k (CHR ''0'') @ s) =
          foldl (\<lambda>acc c. 10 * acc + digit_val c) (read_nat (replicate k (CHR ''0''))) s"
    by (simp add: read_nat_def)
  then show ?thesis by (simp add: read_nat_replicate_zero) (simp add: read_nat_def)
qed

lemma read_nat_format06: "read_nat (format06 k) = k"
  by (simp add: format06_def read_nat_zeros read_nat_dec)

lemma newpath_inj: "newpath name j = newpath name k \<Longrightarrow> j = k"
proof -
  assume "newpath name j = newpath name k"
  then have "format06 j = format06 k" by (simp add: newpath_def)
  then have "read_nat (format06 j) = read_nat (format06 k)" by simp
  then show ?thesis by (simp add: read_nat_format06)
qed

lemma read_int_str_int: "read_int (str_int i) = i"
proof (cases "i < 0")
  case True
  then show ?thesis by (simp add: str_int_def read_int_def read_nat_dec)
next
  case False
  obtain c cs where d: "dec (nat i) = c # cs" using dec_digits [of "nat i"] by (cases "dec (nat i)") auto
  with dec_digits [of "nat i"] have "is_digit c" by simp
  then have "c \<noteq> CHR ''-''" by (auto simp: is_digit_def digit_chars_def)
  with False d read_nat_dec [of "nat i"] show ?thesis
    by (simp add: str_int_def read_int_def)
qed

lemma canonical_int_str_int: "canonical_int (str_int i) = Some i"
proof -
  have "list_all is_digit (if take 1 (str_int i) = ''-'' then drop 1 (str_int i) else str_int i)"
  proof (cases "i < 0")
    case True
    then show ?thesis using dec_digits [of "nat (- i)"] by (simp add: str_int_def)
  next
    case False
    obtain c cs where d: "dec (nat i) = c # cs" using dec_digits [of "nat i"] by (cases "dec (nat i)") auto
    with dec_digits [of "nat i"] have "is_digit c" by simp
    then have "c \<noteq> CHR ''-''" by (auto simp: is_digit_def digit_chars_def)
    with False d dec_digits [of "nat i"] show ?thesis by (simp add: str_int_def)
  qed
  then show ?thesis by (simp add: canonical_int_def read_int_str_int)
qed

section \<open>The files a dump writes\<close>

lemma ext_names_same: "ext_names s c c = []"
  by (simp add: ext_names_def split: stream.splits)

lemma ext_names_append:
  "c \<le> c1 \<Longrightarrow> c1 \<le> c2 \<Longrightarrow> ext_names s c c2 = ext_names s c c1 @ ext_names s c1 c2"
proof -
  assume a: "c \<le> c1" "c1 \<le> c2"
  then have "[c..<c2] = [c..<c1] @ [c1..<c2]"
    by (metis le_Suc_ex upt_add_eq_append)
  then show ?thesis by (simp add: ext_names_def split: stream.splits)
qed

lemma ext_names_disjoint:
  "q \<in> set (ext_names s c c1) \<Longrightarrow> q \<notin> set (ext_names s c1 c2)"
  by (auto simp: ext_names_def split: stream.splits dest: newpath_inj)

lemma frame_refl: "frame s st st []"
  by (simp add: frame_def ext_names_same)

lemma frame_trans:
  assumes "frame s st st1 a" and "frame s st1 st2 b"
  shows "frame s st st2 (a @ b)"
proof -
  let ?c = "external_ndarray_counter"
  from assms(1) have le1: "?c st \<le> ?c st1"
    and a: "a = ext_names s (?c st) (?c st1)"
    and fa: "\<And>q. q \<notin> set a \<Longrightarrow> files st1 q = files st q"
    unfolding frame_def by blast+
  from assms(2) have le2: "?c st1 \<le> ?c st2"
    and b: "b = ext_names s (?c st1) (?c st2)"
    and fb: "\<And>q. q \<notin> set b \<Longrightarrow> files st2 q = files st1 q"
    unfolding frame_def by blast+
  have n: "a @ b = ext_names s (?c st) (?c st2)"
    unfolding a b by (rule ext_names_append [OF le1 le2, symmetric])
  have f: "\<And>q. q \<notin> set (a @ b) \<Longrightarrow> files st2 q = files st q"
    using fa fb by simp
  from le1 le2 have "?c st \<le> ?c st2" by simp
  with n f show ?thesis unfolding frame_def by blast
qed

lemma represent_ndarray_frame:
  "represent_ndarray L s st a = (st', n) \<Longrightarrow> frame s st st' (ext_paths n)"
  by (cases s)
    (auto simp: represent_ndarray_def externalize_def savez_compressed_def frame_def ext_names_def
      Let_def split: if_splits)

lemma represent_frame:
  "represent_data L s st v = Inr (st', n) \<Longrightarrow> frame s st st' (ext_paths n)"
  "represent_mapping L s st d = Inr (st', ps) \<Longrightarrow>
     frame s st st' (concat (map (\<lambda>p. ext_paths (fst p) @ ext_paths (snd p)) ps))"
  "represent_sequence L s st xs = Inr (st', ns) \<Longrightarrow> frame s st st' (concat (map ext_paths ns))"
  "represent_set L s st xs = Inr (st', ps) \<Longrightarrow>
     frame s st st' (concat (map (\<lambda>p. ext_paths (fst p) @ ext_paths (snd p)) ps))"
proof (induction L s st v and L s st d and L s st xs and L s st xs
    arbitrary: st' n and st' ps and st' ns and st' ps
    rule: represent_data_represent_mapping_represent_sequence_represent_set.induct)
  case (11 L s st a)
  then show ?case by (simp add: represent_ndarray_frame)
next
  case (16 L s st k v d)
  from "16.prems" obtain st1 nk st2 nv ps' where
    1: "represent_data L s st k = Inr (st1, nk)" and
    2: "represent_data L s st1 v = Inr (st2, nv)" and
    3: "represent_mapping L s st2 d = Inr (st', ps')" and
    ps: "ps = (nk, nv) # ps'"
    by (auto split: sum.splits)
  note f1 = "16.IH"(1) [OF 1]
  note f2 = "16.IH"(2) [OF 1 refl 2]
  note f3 = "16.IH"(3) [OF 1 refl 2 refl 3]
  from frame_trans [OF frame_trans [OF f1 f2] f3] show ?case by (simp add: ps)
next
  case (18 L s st x xs)
  from "18.prems" obtain st1 nx ns' where
    1: "represent_data L s st x = Inr (st1, nx)" and
    2: "represent_sequence L s st1 xs = Inr (st', ns')" and
    ns: "ns = nx # ns'"
    by (auto split: sum.splits)
  from frame_trans [OF "18.IH"(1) [OF 1] "18.IH"(2) [OF 1 refl 2]] show ?case by (simp add: ns)
next
  case (20 L s st x xs)
  from "20.prems" obtain st1 nx ps' where
    1: "represent_data L s st x = Inr (st1, nx)" and
    2: "represent_set L s st1 xs = Inr (st', ps')" and
    ps: "ps = (nx, null_node) # ps'"
    by (auto split: sum.splits)
  from frame_trans [OF "20.IH"(1) [OF 1] "20.IH"(2) [OF 1 refl 2]] show ?case
    by (simp add: ps null_node_def)
qed (auto simp: frame_refl null_node_def represent_int_def represent_float_def
      split: sum.splits if_splits)

section \<open>Loading what was dumped\<close>

lemma agrees_split:
  assumes f1: "frame s st st1 a" and f2: "frame s st1 st2 b" and ag: "agrees s st st2 G"
  shows "agrees s st st1 G" and "agrees s st1 st2 G"
proof -
  let ?c = "external_ndarray_counter"
  from f1 have le1: "?c st \<le> ?c st1" unfolding frame_def by blast
  from f2 have le2: "?c st1 \<le> ?c st2"
    and b: "b = ext_names s (?c st1) (?c st2)"
    and fb: "\<And>q. q \<notin> set b \<Longrightarrow> files st2 q = files st1 q"
    unfolding frame_def by blast+
  note app = ext_names_append [OF le1 le2, of s]
  show "agrees s st st1 G"
    unfolding agrees_def
  proof
    fix q assume q: "q \<in> set (ext_names s (?c st) (?c st1))"
    then have "q \<in> set (ext_names s (?c st) (?c st2))" by (simp add: app)
    with ag have "G q = files st2 q" unfolding agrees_def by blast
    moreover from q have "q \<notin> set b" unfolding b by (rule ext_names_disjoint)
    ultimately show "G q = files st1 q" by (simp add: fb)
  qed
  show "agrees s st1 st2 G"
    unfolding agrees_def
  proof
    fix q assume "q \<in> set (ext_names s (?c st1) (?c st2))"
    then have "q \<in> set (ext_names s (?c st) (?c st2))" by (simp add: app)
    with ag show "G q = files st2 q" unfolding agrees_def by blast
  qed
qed

lemma foldl_od_setitem_distinct:
  "distinct (map fst (d @ ps)) \<Longrightarrow> foldl (\<lambda>d (k, v). od_setitem d k v) d ps = d @ ps"
proof (induction ps arbitrary: d)
  case Nil
  then show ?case by simp
next
  case (Cons p ps)
  obtain k v where p: "p = (k, v)" by (cases p)
  from Cons.prems p have "k \<notin> fst ` set d" by auto
  then have "od_setitem d k v = d @ [(k, v)]" by (simp add: od_setitem_def)
  moreover from Cons.prems p have "distinct (map fst ((d @ [(k, v)]) @ ps))" by simp
  ultimately show ?case using Cons.IH [of "d @ [(k, v)]"] by (simp add: p)
qed

lemma od_of_pairs_distinct: "distinct (map fst ps) \<Longrightarrow> od_of_pairs ps = ps"
  using foldl_od_setitem_distinct [of "[]" ps] by (simp add: od_of_pairs_def)

lemma hashable_drop_widths: "hashable (drop_widths v) = hashable v"
  by (cases v) simp_all

lemma represent_tag:
  "represent_data L s st v = Inr (st', n) \<Longrightarrow> node_tag n \<noteq> tag_merge \<and> node_tag n \<noteq> tag_value"
  by (cases v)
    (auto simp: null_node_def represent_int_def represent_float_def represent_ndarray_def
      externalize_def Let_def split: sum.splits if_splits)

lemma represent_ndarray_construct:
  assumes "represent_ndarray L s st a = (st', n)" and "agrees s st st' G"
  shows "construct_object L G n = Inr (PNdarray a)"
proof (cases "externalize L s st a")
  case (Inl e)
  with assms(1) have "n = ScalarNode ''!ndarray'' (Base64 (Npz [(''array'', a)]))"
    by (simp add: represent_ndarray_def)
  then show ?thesis
    by (simp add: construct_object.simps construct_ndarray_def getitem_def)
next
  case (Inr r)
  then obtain p where s: "s = FileStream p"
    by (cases s) (simp_all add: externalize_def)
  let ?q = "newpath p (external_ndarray_counter st)"
  from Inr assms(1) s have n: "n = ScalarNode ''!extndarray'' (Text ?q)"
    and c: "external_ndarray_counter st' = external_ndarray_counter st + 1"
    and f: "files st' ?q = Some (File (Binary (Npz [(''array'', a)])))"
    by (auto simp: represent_ndarray_def externalize_def savez_compressed_def Let_def split: if_splits)
  from assms(2) s c have "G ?q = files st' ?q"
    by (simp add: agrees_def ext_names_def)
  with f show ?thesis
    by (simp add: n construct_object.simps construct_external_ndarray_def getitem_def)
qed

lemma construct_scalars:
  "construct_object L G null_node = Inr PNone"
  "construct_object L G (ScalarNode tag_bool (Text (if b then ''true'' else ''false''))) = Inr (PBool b)"
  "construct_object L G (represent_int i) = Inr (PInt i)"
  "base_scalar L tag_float (float_text L f) = Inr (PFloat f) \<Longrightarrow>
     construct_object L G (represent_float L f) = Inr (PFloat f)"
  "construct_object L G (ScalarNode tag_binary (Base64 bs)) = Inr (PBytes bs)"
  by (simp_all add: construct_object.simps null_node_def construct_yaml_bool_def represent_int_def
      construct_yaml_int_def canonical_int_str_int represent_float_def construct_yaml_float_def)

lemma represent_construct:
  "well_formed L v \<Longrightarrow> represent_data L s st v = Inr (st', n) \<Longrightarrow> agrees s st st' G \<Longrightarrow>
     construct_object L G n = Inr (drop_widths v)"
  "list_all (\<lambda>p. well_formed L (fst p) \<and> well_formed L (snd p)) d \<Longrightarrow>
     represent_mapping L s st d = Inr (st', ps) \<Longrightarrow> agrees s st st' G \<Longrightarrow>
     construct_pairs L G ps = Inr (map (\<lambda>p. (drop_widths (fst p), drop_widths (snd p))) d) \<and>
     \<not> has_special_key ps"
  "list_all (well_formed L) xs \<Longrightarrow> represent_sequence L s st xs = Inr (st', ns) \<Longrightarrow>
     agrees s st st' G \<Longrightarrow> construct_sequence L G ns = Inr (map drop_widths xs)"
  "list_all (well_formed L) xs \<Longrightarrow> represent_set L s st xs = Inr (st', ps) \<Longrightarrow>
     agrees s st st' G \<Longrightarrow>
     construct_pairs L G ps = Inr (map (\<lambda>x. (drop_widths x, PNone)) xs) \<and> \<not> has_special_key ps"
proof (induction L s st v and L s st d and L s st xs and L s st xs
    arbitrary: st' n G and st' ps G and st' ns G and st' ps G
    rule: represent_data_represent_mapping_represent_sequence_represent_set.induct)
  case (1 L s st)
  then show ?case by (auto simp: construct_scalars)
next
  case (2 L s st b)
  then show ?case by (auto simp: construct_scalars)
next
  case (3 L s st i)
  then show ?case by (auto simp: construct_scalars)
next
  case (4 L s st f)
  then show ?case by (auto simp: construct_scalars)
next
  case (5 L s st v)
  then show ?case by (auto simp: construct_text_node)
next
  case (6 L s st b)
  then show ?case by (auto simp: construct_scalars)
next
  case (7 L s st xs)
  from "7.prems" obtain ns where
    r: "represent_sequence L s st xs = Inr (st', ns)" and n: "n = SequenceNode tag_seq ns"
    by (auto split: sum.splits)
  from "7.prems" have "list_all (well_formed L) xs" by simp
  from "7.IH" [OF this r "7.prems"(3)] show ?case
    by (simp add: n construct_object.simps)
next
  case (8 L s st d)
  from "8.prems" obtain ps where
    r: "represent_mapping L s st d = Inr (st', ps)" and n: "n = MappingNode tag_map ps"
    by (auto split: sum.splits)
  let ?kvs = "map (\<lambda>p. (drop_widths (fst p), drop_widths (snd p))) d"
  from "8.prems" have w: "list_all (\<lambda>p. well_formed L (fst p) \<and> well_formed L (snd p)) d"
    and h: "list_all (\<lambda>p. hashable (fst p)) d"
    and di: "distinct (map (\<lambda>p. drop_widths (fst p)) d)" by simp_all
  from "8.IH" [OF w r "8.prems"(3)] have
    c: "construct_pairs L G ps = Inr ?kvs" and sp: "\<not> has_special_key ps" by simp_all
  from h have hk: "list_all (\<lambda>(k, v). hashable k) ?kvs"
    by (simp add: list_all_iff hashable_drop_widths)
  from di have "distinct (map fst ?kvs)" by (simp add: comp_def)
  then have "od_of_pairs ?kvs = ?kvs" by (rule od_of_pairs_distinct)
  with c sp hk show ?case
    by (simp add: n construct_object.simps OrderedDict_def)
next
  case (9 L s st xs)
  from "9.prems" obtain ps where
    r: "represent_set L s st xs = Inr (st', ps)" and n: "n = MappingNode tag_set ps"
    by (auto split: sum.splits)
  let ?kvs = "map (\<lambda>x. (drop_widths x, PNone)) xs"
  from "9.prems" have w: "list_all (well_formed L) xs" and h: "list_all hashable xs"
    and di: "distinct (map drop_widths xs)" by simp_all
  from "9.IH" [OF w r "9.prems"(3)] have
    c: "construct_pairs L G ps = Inr ?kvs" and sp: "\<not> has_special_key ps" by simp_all
  from h have hk: "list_all (\<lambda>(k, v). hashable k) ?kvs"
    by (simp add: list_all_iff hashable_drop_widths)
  from di have dk: "distinct (map fst ?kvs)" by (simp add: comp_def)
  have mk: "map fst ?kvs = map drop_widths xs" by (simp add: comp_def)
  from c sp hk dk show ?case
    by (simp add: n construct_object.simps mk)
next
  case (10 L s st xs)
  from "10.prems" obtain ps where
    r: "represent_set L s st xs = Inr (st', ps)" and n: "n = MappingNode ''!frozenset'' ps"
    by (auto split: sum.splits)
  let ?kvs = "map (\<lambda>x. (drop_widths x, PNone)) xs"
  from "10.prems" have w: "list_all (well_formed L) xs" and h: "list_all hashable xs"
    and di: "distinct (map drop_widths xs)" by simp_all
  from "10.IH" [OF w r "10.prems"(3)] have
    c: "construct_pairs L G ps = Inr ?kvs" and sp: "\<not> has_special_key ps" by simp_all
  from h have hk: "list_all (\<lambda>(k, v). hashable k) ?kvs"
    by (simp add: list_all_iff hashable_drop_widths)
  from di have dk: "distinct (map fst ?kvs)" by (simp add: comp_def)
  have mk: "map fst ?kvs = map drop_widths xs" by (simp add: comp_def)
  from c sp hk dk show ?case
    by (simp add: n construct_object.simps mk)
next
  case (11 L s st a)
  then show ?case by (simp add: represent_ndarray_construct)
next
  case (12 L s st t i)
  then show ?case by (auto simp: construct_scalars split: if_splits)
next
  case (13 L s st t f)
  then show ?case by (auto simp: construct_scalars split: if_splits)
next
  case (14 L s st c)
  then show ?case by simp
next
  case (15 L s st)
  then show ?case by (simp add: has_special_key_def)
next
  case (16 L s st k v d)
  from "16.prems"(2) obtain st1 nk st2 nv ps' where
    1: "represent_data L s st k = Inr (st1, nk)" and
    2: "represent_data L s st1 v = Inr (st2, nv)" and
    3: "represent_mapping L s st2 d = Inr (st', ps')" and
    ps: "ps = (nk, nv) # ps'"
    by (auto split: sum.splits)
  from "16.prems"(1) have wk: "well_formed L k" and wv: "well_formed L v"
    and wd: "list_all (\<lambda>p. well_formed L (fst p) \<and> well_formed L (snd p)) d" by simp_all
  note f1 = represent_frame(1) [OF 1] and f2 = represent_frame(1) [OF 2]
    and f3 = represent_frame(2) [OF 3]
  note a12 = agrees_split [OF frame_trans [OF f1 f2] f3 "16.prems"(3)]
  note a1 = agrees_split [OF f1 f2 a12(1)]
  from "16.IH"(1) [OF wk 1 a1(1)] have ck: "construct_object L G nk = Inr (drop_widths k)" .
  from "16.IH"(2) [OF 1 refl wv 2 a1(2)] have cv: "construct_object L G nv = Inr (drop_widths v)" .
  from "16.IH"(3) [OF 1 refl 2 refl wd 3 a12(2)] have
    cd: "construct_pairs L G ps' = Inr (map (\<lambda>p. (drop_widths (fst p), drop_widths (snd p))) d)"
    and sp: "\<not> has_special_key ps'" by simp_all
  from represent_tag [OF 1] sp have "\<not> has_special_key ps"
    by (simp add: ps has_special_key_def)
  with ck cv cd show ?case by (simp add: ps)
next
  case (17 L s st)
  then show ?case by simp
next
  case (18 L s st x xs)
  from "18.prems"(2) obtain st1 nx ns' where
    1: "represent_data L s st x = Inr (st1, nx)" and
    2: "represent_sequence L s st1 xs = Inr (st', ns')" and
    ns: "ns = nx # ns'"
    by (auto split: sum.splits)
  from "18.prems"(1) have wx: "well_formed L x" and wxs: "list_all (well_formed L) xs" by simp_all
  note a = agrees_split [OF represent_frame(1) [OF 1] represent_frame(3) [OF 2] "18.prems"(3)]
  from "18.IH"(1) [OF wx 1 a(1)] "18.IH"(2) [OF 1 refl wxs 2 a(2)] show ?case
    by (simp add: ns)
next
  case (19 L s st)
  then show ?case by (simp add: has_special_key_def)
next
  case (20 L s st x xs)
  from "20.prems"(2) obtain st1 nx ps' where
    1: "represent_data L s st x = Inr (st1, nx)" and
    2: "represent_set L s st1 xs = Inr (st', ps')" and
    ps: "ps = (nx, null_node) # ps'"
    by (auto split: sum.splits)
  from "20.prems"(1) have wx: "well_formed L x" and wxs: "list_all (well_formed L) xs" by simp_all
  note a = agrees_split [OF represent_frame(1) [OF 1] represent_frame(4) [OF 2] "20.prems"(3)]
  from "20.IH"(1) [OF wx 1 a(1)] have cx: "construct_object L G nx = Inr (drop_widths x)" .
  from "20.IH"(2) [OF 1 refl wxs 2 a(2)] have
    cs: "construct_pairs L G ps' = Inr (map (\<lambda>x. (drop_widths x, PNone)) xs)"
    and sp: "\<not> has_special_key ps'" by simp_all
  from represent_tag [OF 1] sp have "\<not> has_special_key ps"
    by (simp add: ps has_special_key_def)
  with cx cs show ?case by (simp add: ps construct_scalars)
qed

lemma well_formed_supported: "well_formed L v \<Longrightarrow> supported v"
  by (induction v rule: supported.induct) (auto simp: list_all_iff)

lemma agrees_self: "agrees s st st' (files st')"
  by (simp add: agrees_def)

lemma dump_then_construct:
  assumes "well_formed L D"
  shows "\<exists>F' n c. ordered_dump L s F D = Inr (F', Stream (Some n)) \<and>
           construct_object L F' n = Inr (drop_widths D) \<and>
           ext_paths n = ext_names s 0 c"
proof -
  let ?st = "\<lparr>external_ndarray_counter = 0, files = F\<rparr>"
  from represent_supported(1) [OF well_formed_supported [OF assms], of L s ?st]
  obtain st' n where r: "represent_data L s ?st D = Inr (st', n)" by blast
  from represent_construct(1) [OF assms r agrees_self]
  have c: "construct_object L (files st') n = Inr (drop_widths D)" .
  from represent_frame(1) [OF r] have e: "ext_paths n = ext_names s 0 (external_ndarray_counter st')"
    by (simp add: frame_def)
  from r have "ordered_dump L s F D = Inr (files st', Stream (Some n))"
    by (simp add: ordered_dump_def)
  with c e show ?thesis by blast
qed

text \<open>
  Claim C3, as amended. For a document (an ordered dictionary) of supported values in which
  no string begins with the array prefix, the dump succeeds on every stream, whether
  arrays go to files of their own or not, and loading the text it wrote, with the files
  as the dump left them, gives the document back: same structure, same key order, same
  values, numpy scalars as Python numbers of the same value.
\<close>

theorem load_of_dump:
  assumes "well_formed L (POrderedDict d)"
  shows "\<exists>F' t. ordered_dump L s F (POrderedDict d) = Inr (F', t) \<and>
           ordered_load L F' t = Inr (drop_widths (POrderedDict d))"
proof -
  from dump_then_construct [OF assms, of s F] obtain F' n where
    "ordered_dump L s F (POrderedDict d) = Inr (F', Stream (Some n))"
    "construct_object L F' n = Inr (drop_widths (POrderedDict d))" by blast
  then show ?thesis by (simp add: ordered_load_def)
qed

lemma float_parse0_text0: "float_parse0 (float_text0 (PyFloat 1 10)) = Some (PyFloat 1 10)"
  by code_simp

theorem load_of_dump_witness:
  "\<exists>F' t. ordered_dump lib0 NoStream fs0
       (POrderedDict [(PStr ''n'', PNumpyInt ''int32'' 5),
                      (PStr ''xs'', PList [PInt 1, PFloat (PyFloat 1 10), PBool True, PNone]),
                      (PStr ''s'', PFrozenset [PStr ''u'', PStr ''v'']),
                      (PStr ''a'', PNdarray array123)]) = Inr (F', t) \<and>
     ordered_load lib0 F' t =
       Inr (POrderedDict [(PStr ''n'', PInt 5),
                          (PStr ''xs'', PList [PInt 1, PFloat (PyFloat 1 10), PBool True, PNone]),
                          (PStr ''s'', PFrozenset [PStr ''u'', PStr ''v'']),
                          (PStr ''a'', PNdarray array123)])"
proof -
  let ?d = "[(PStr ''n'', PNumpyInt ''int32'' 5),
             (PStr ''xs'', PList [PInt 1, PFloat (PyFloat 1 10), PBool True, PNone]),
             (PStr ''s'', PFrozenset [PStr ''u'', PStr ''v'']),
             (PStr ''a'', PNdarray array123)]"
  have "well_formed lib0 (POrderedDict ?d)"
    by (simp add: startswith_def int_dtypes_def lib0_def base_scalar0_def float_parse0_text0)
  from load_of_dump [OF this, of NoStream fs0] show ?thesis by simp
qed

text \<open>
  The claim as it stands fails for a string value that begins with the array prefix: it
  is dumped as a plain string and loaded as an array.
\<close>

theorem load_of_dump_array_string:
  "ordered_dump lib0 NoStream fs0 (POrderedDict [(PStr ''a'', PStr ''array([1, 2, 3])'')]) =
     Inr (fs0, Stream (Some (MappingNode tag_map [(text_node ''a'', text_node ''array([1, 2, 3])'')]))) \<and>
   ordered_load lib0 fs0 (Stream (Some (MappingNode tag_map [(text_node ''a'', text_node ''array([1, 2, 3])'')]))) =
     Inr (POrderedDict [(PStr ''a'', PNdarray array123)])"
proof -
  have k: "construct_object lib0 fs0 (text_node ''a'') = Inr (PStr ''a'')"
    by (simp add: text_node_def construct_text_node startswith_def)
  have v: "construct_object lib0 fs0 (text_node ''array([1, 2, 3])'') = Inr (PNdarray array123)"
    by (simp add: text_node_def construct_str_array_prefix startswith_def py_eval_lib0 eval_fragment_array123)
  have sp: "\<not> has_special_key [(text_node ''a'', text_node ''array([1, 2, 3])'')]"
    by (simp add: has_special_key_def text_node_def)
  have "construct_object lib0 fs0 (MappingNode tag_map [(text_node ''a'', text_node ''array([1, 2, 3])'')]) =
      Inr (POrderedDict [(PStr ''a'', PNdarray array123)])"
    by (simp add: construct_object.simps [of _ _ "MappingNode t ps" for t ps] sp k v
        OrderedDict_def od_of_pairs_def od_setitem_def)
  then show ?thesis
    by (simp add: ordered_dump_def ordered_load_def text_node_def)
qed

section \<open>Arrays in files of their own\<close>









end
